theory Spec2Isabelle
  imports Main "HOL-Library.Sublist"
begin

section \<open>The page session of \<open>src/app.js\<close>\<close>

text \<open>
  \<open>app.js\<close> is a script of event listeners over three module-level booleans and a few
  DOM elements. The model is a state record (the booleans, the DOM properties the
  script writes, the continuations the runtime holds for suspended \<open>async\<close> functions and
  timers, and the history of every externally visible effect) together with one state
  transformer per listener.

  An \<open>async\<close> function runs synchronously up to its first \<open>await\<close>; the rest runs later,
  when the awaited promise settles, and other listeners may run in between. So each
  \<open>async\<close> function is cut at its \<open>await\<close>s into segments, each an atomic state transformer,
  and a suspended activation is a \<open>task\<close> in the \<open>pending\<close> list. What the environment
  decides (whether an API exists, whether a call throws, how a promise settles) is an
  argument of the segment that observes it.

  The elements fetched in lines 8 to 16 are taken to exist, as the page the script is
  written for provides them, and \<open>scene.systems\<close> to be an object, as the scene framework
  makes it. What the properties written by the script hold at first is a parameter
  (\<open>page\<close>). Under this no statement of a listener can raise but the two awaited calls,
  whose failures are modelled.
\<close>

type_synonym jsval = string
  \<comment> \<open>an error or event object, as far as the script uses it: it is only printed\<close>

datatype effect =
    SetStatus string              \<comment> \<open>\<open>statusEl.textContent = txt\<close>\<close>
  | SetOverlayDisplay string      \<comment> \<open>\<open>overlay.style.display = v\<close>\<close>
  | SetGuideDisplay string        \<comment> \<open>\<open>guideEl.style.display = v\<close>\<close>
  | SetModelVisible string        \<comment> \<open>\<open>gltfModel.setAttribute('visible', v)\<close>\<close>
  | SetStartDisabled bool         \<comment> \<open>\<open>startBtn.disabled = b\<close>\<close>
  | ConsoleLog "string list"
  | ConsoleWarn "string list"
  | ConsoleError "string list"
  | Alert string
  | GetUserMedia                  \<comment> \<open>\<open>navigator.mediaDevices.getUserMedia({ video: true })\<close>\<close>
  | TrackStop nat                 \<comment> \<open>\<open>t.stop()\<close> on the track of that index\<close>
  | EngineStart                   \<comment> \<open>\<open>arSystem.start()\<close>\<close>
  | WindowOpen string string
  | SetTimeout nat

datatype task =
    AtGetUserMedia                \<comment> \<open>line 31: \<open>await navigator.mediaDevices.getUserMedia(...)\<close>\<close>
  | AtWarmCameraPermission        \<comment> \<open>line 105: \<open>await warmCameraPermission()\<close>, the callee has returned\<close>
  | AtEngineStart                 \<comment> \<open>line 53: \<open>await arSystem.start()\<close>\<close>
  | AtStallTimer                  \<comment> \<open>line 116: the callback given to \<open>setTimeout\<close>\<close>

datatype call = Throws jsval | Returns
  \<comment> \<open>a call of an external function throws at once, or returns what is then awaited\<close>

datatype 'a outcome = Fulfilled 'a | Rejected jsval
  \<comment> \<open>how an awaited promise settles\<close>

record app =
  arReady :: bool                 \<comment> \<open>line 18\<close>
  modelReady :: bool              \<comment> \<open>line 19\<close>
  arStarted :: bool               \<comment> \<open>line 20\<close>
  statusText :: string            \<comment> \<open>\<open>statusEl.textContent\<close>\<close>
  overlayDisplay :: string        \<comment> \<open>\<open>overlay.style.display\<close>\<close>
  guideDisplay :: string          \<comment> \<open>\<open>guideEl.style.display\<close>\<close>
  modelVisible :: string          \<comment> \<open>attribute \<open>visible\<close> of \<open>gltfModel\<close>\<close>
  startDisabled :: bool           \<comment> \<open>\<open>startBtn.disabled\<close>\<close>
  pending :: "task list"          \<comment> \<open>suspended continuations and timers\<close>
  trace :: "effect list"          \<comment> \<open>every effect so far, oldest first\<close>

record page =
  page_status :: string
  page_overlay :: string
  page_guide :: string
  page_visible :: string
  page_disabled :: bool

definition boot :: "page \<Rightarrow> app" where
  \<comment> \<open>the state once the top level of the script has run: lines 18 to 20\<close>
  "boot p = \<lparr> arReady = False, modelReady = False, arStarted = False,
      statusText = page_status p, overlayDisplay = page_overlay p,
      guideDisplay = page_guide p, modelVisible = page_visible p,
      startDisabled = page_disabled p, pending = [], trace = [] \<rparr>"

subsection \<open>Statements\<close>

primrec block :: "('s \<Rightarrow> 's) list \<Rightarrow> 's \<Rightarrow> 's" where
  \<comment> \<open>statements in sequence\<close>
  "block [] s = s"
| "block (f # fs) s = block fs (f s)"

definition effect :: "effect \<Rightarrow> app \<Rightarrow> app" where
  "effect e s = s\<lparr>trace := trace s @ [e]\<rparr>"

definition suspend :: "task \<Rightarrow> app \<Rightarrow> app" where
  "suspend t s = s\<lparr>pending := pending s @ [t]\<rparr>"

definition take_task :: "task \<Rightarrow> app \<Rightarrow> app" where
  "take_task t s = s\<lparr>pending := remove1 t (pending s)\<rparr>"

definition set_status :: "string \<Rightarrow> app \<Rightarrow> app" where
  "set_status txt s = effect (SetStatus txt) (s\<lparr>statusText := txt\<rparr>)"

definition set_overlay_display :: "string \<Rightarrow> app \<Rightarrow> app" where
  "set_overlay_display v s = effect (SetOverlayDisplay v) (s\<lparr>overlayDisplay := v\<rparr>)"

definition set_guide_display :: "string \<Rightarrow> app \<Rightarrow> app" where
  "set_guide_display v s = effect (SetGuideDisplay v) (s\<lparr>guideDisplay := v\<rparr>)"

definition set_model_visible :: "string \<Rightarrow> app \<Rightarrow> app" where
  "set_model_visible v s = effect (SetModelVisible v) (s\<lparr>modelVisible := v\<rparr>)"

definition set_start_disabled :: "bool \<Rightarrow> app \<Rightarrow> app" where
  "set_start_disabled b s = effect (SetStartDisabled b) (s\<lparr>startDisabled := b\<rparr>)"

subsection \<open>The texts the script shows\<close>

text \<open>Three of the texts hold an em dash (U+2014), here its three UTF-8 bytes.\<close>

definition em_dash :: string where
  "em_dash = [CHR 0xE2, CHR 0x80, CHR 0x94]"

definition msg_starting :: string where
  "msg_starting = ''Starting AR engine '' @ em_dash @ '' initializing camera...''"

definition msg_no_system :: string where
  "msg_no_system = ''Error: AR system not available.''"

definition msg_start_failed :: string where
  "msg_start_failed = ''AR start failed. Is camera permission granted?''"

definition msg_engine_ready :: string where
  "msg_engine_ready = ''AR engine ready.''"

definition msg_engine_error :: string where
  "msg_engine_error =
     ''AR engine error '' @ em_dash @ '' camera unavailable or permission denied.''"

definition msg_alert :: string where
  "msg_alert = ''AR failed to start. Ensure camera permission is allowed and this page is served over HTTPS (or use local server).''"

definition msg_reveal :: string where
  "msg_reveal = ''AR ready '' @ em_dash @ '' point camera at the image target.''"

definition msg_requesting :: string where
  "msg_requesting = ''Requesting camera access (user gesture) ...''"

definition msg_stall :: string where
  "msg_stall = ''Waiting for camera '' @ em_dash
     @ '' if nothing happens, enable camera permission and reload.''"

subsection \<open>The functions of the script\<close>

definition logStatus :: "string \<Rightarrow> app \<Rightarrow> app" where
  \<comment> \<open>lines 22 to 25\<close>
  "logStatus txt = block [set_status txt, effect (ConsoleLog [''[EnterpriseAR]'', txt])]"

definition checkHideOverlay :: "app \<Rightarrow> app" where
  \<comment> \<open>lines 93 to 99\<close>
  "checkHideOverlay s =
     (if arReady s \<and> modelReady s
      then block [set_overlay_display ''none'', set_guide_display ''block'',
                  logStatus msg_reveal] s
      else s)"

definition warm_catch :: "jsval \<Rightarrow> app \<Rightarrow> app" where
  \<comment> \<open>lines 34 to 37: the \<open>catch\<close> block of \<open>warmCameraPermission\<close>\<close>
  "warm_catch e = effect (ConsoleWarn [''warmCameraPermission failed:'', e])"

definition warmCameraPermission :: "call option \<Rightarrow> app \<Rightarrow> app" where
  \<comment> \<open>lines 28 to 31, up to the \<open>await\<close>. The argument is \<open>None\<close> when
      \<open>navigator.mediaDevices\<close> or its \<open>getUserMedia\<close> is missing. Where the function returns,
      its only caller (line 105) is left awaiting the returned promise.\<close>
  "warmCameraPermission gum s =
     (case gum of
        None \<Rightarrow> suspend AtWarmCameraPermission s
      | Some c \<Rightarrow>
          (let s = effect GetUserMedia s in
           case c of
             Throws e \<Rightarrow> suspend AtWarmCameraPermission (warm_catch e s)
           | Returns \<Rightarrow> suspend AtGetUserMedia s))"

definition warmCameraPermission_resume :: "nat outcome \<Rightarrow> app \<Rightarrow> app" where
  \<comment> \<open>lines 31 to 38, from the \<open>await\<close> on. A fulfilled promise carries a stream, of
      which the script uses the tracks only: the argument is their number.\<close>
  "warmCameraPermission_resume r s =
     suspend AtWarmCameraPermission
       (case r of
          Fulfilled n \<Rightarrow>
            block (map (\<lambda>t. effect (TrackStop t)) [0..<n]
                   @ [effect (ConsoleLog [''Camera permission warmed''])]) s
        | Rejected e \<Rightarrow> warm_catch e s)"

definition startAR_catch :: "jsval \<Rightarrow> app \<Rightarrow> app" where
  \<comment> \<open>lines 55 to 58: the \<open>catch\<close> block of \<open>startAR\<close>\<close>
  "startAR_catch err =
     block [effect (ConsoleError [''arSystem.start() failed'', err]),
            logStatus msg_start_failed]"

definition startAR :: "call option \<Rightarrow> app \<Rightarrow> app" where
  \<comment> \<open>lines 41 to 53, up to the \<open>await\<close>. The argument is what
      \<open>scene.systems['mindar-image-system']\<close> holds: \<open>None\<close> when it is missing, else how
      the call of its \<open>start\<close> behaves. Nothing follows \<open>await startAR()\<close> in the caller
      (line 106), so a return leaves no task.\<close>
  "startAR arSystem s =
     (if arStarted s then s
      else
        (let s = s\<lparr>arStarted := True\<rparr>;
             s = logStatus msg_starting s
         in case arSystem of
              None \<Rightarrow> logStatus msg_no_system s
            | Some c \<Rightarrow>
                (let s = effect EngineStart s in
                 case c of
                   Throws err \<Rightarrow> startAR_catch err s
                 | Returns \<Rightarrow> suspend AtEngineStart s)))"

definition startAR_resume :: "unit outcome \<Rightarrow> app \<Rightarrow> app" where
  \<comment> \<open>lines 53 to 59, from the \<open>await\<close> on\<close>
  "startAR_resume r s =
     (case r of Fulfilled _ \<Rightarrow> s | Rejected err \<Rightarrow> startAR_catch err s)"

subsection \<open>The listeners\<close>

definition on_arReady :: "app \<Rightarrow> app" where
  \<comment> \<open>lines 62 to 66\<close>
  "on_arReady =
     block [\<lambda>s. s\<lparr>arReady := True\<rparr>, logStatus msg_engine_ready, checkHideOverlay]"

definition on_arError :: "jsval \<Rightarrow> app \<Rightarrow> app" where
  \<comment> \<open>lines 68 to 72\<close>
  "on_arError ev =
     block [effect (ConsoleError [''MindAR arError'', ev]),
            logStatus msg_engine_error,
            effect (Alert msg_alert)]"

definition on_model_loaded :: "app \<Rightarrow> app" where
  \<comment> \<open>lines 75 to 79\<close>
  "on_model_loaded =
     block [\<lambda>s. s\<lparr>modelReady := True\<rparr>, effect (ConsoleLog [''Model loaded'']),
            checkHideOverlay]"

definition on_targetFound :: "app \<Rightarrow> app" where
  \<comment> \<open>lines 82 to 85\<close>
  "on_targetFound = block [set_model_visible ''true'', set_guide_display ''none'']"

definition on_targetLost :: "app \<Rightarrow> app" where
  \<comment> \<open>lines 87 to 90\<close>
  "on_targetLost = block [set_model_visible ''false'', set_guide_display ''block'']"

definition startBtn_click :: "call option \<Rightarrow> app \<Rightarrow> app" where
  \<comment> \<open>lines 102 to 105, up to the \<open>await\<close>\<close>
  "startBtn_click gum =
     block [set_start_disabled True, logStatus msg_requesting, warmCameraPermission gum]"

definition startBtn_click_resume :: "call option \<Rightarrow> app \<Rightarrow> app" where
  \<comment> \<open>lines 105 to 107, from the \<open>await\<close> on\<close>
  "startBtn_click_resume arSystem = startAR arSystem"

definition previewBtn_click :: "app \<Rightarrow> app" where
  \<comment> \<open>lines 110 to 112\<close>
  "previewBtn_click = effect (WindowOpen ''preview.html'' ''_blank'')"

definition on_load :: "app \<Rightarrow> app" where
  \<comment> \<open>lines 115, 116 and 120\<close>
  "on_load = block [effect (SetTimeout 8000), suspend AtStallTimer]"

definition stall_check :: "app \<Rightarrow> app" where
  \<comment> \<open>lines 116 to 120: the timer's callback\<close>
  "stall_check s = (if \<not> arReady s then logStatus msg_stall s else s)"

subsection \<open>The event loop\<close>

text \<open>
  An event is one run-to-completion turn of the loop: a listener called, or a suspended
  continuation resumed. A session is any list of events; an event that resumes a task
  the runtime does not hold does nothing. Every order the runtime can produce is such a
  list. (So are some it cannot produce: a continuation whose promise has already
  settled runs before the next listener, which the lists do not enforce. What holds for
  all lists holds for the runtime's.)
\<close>

datatype event =
    StartClick "call option"      \<comment> \<open>\<open>click\<close> on \<open>startBtn\<close>, with \<open>getUserMedia\<close> as found\<close>
  | PreviewClick
  | ArReady
  | ArError jsval
  | ModelLoaded
  | TargetFound
  | TargetLost
  | WindowLoad
  | GumSettles "nat outcome"      \<comment> \<open>a promise of \<open>getUserMedia\<close> settles\<close>
  | WarmReturned "call option"    \<comment> \<open>a click handler goes on after line 105, with the system as found\<close>
  | StartSettles "unit outcome"   \<comment> \<open>a promise of \<open>arSystem.start()\<close> settles\<close>
  | TimerFires

definition resume :: "task \<Rightarrow> (app \<Rightarrow> app) \<Rightarrow> app \<Rightarrow> app" where
  \<comment> \<open>a continuation runs only if the runtime holds it, and then once\<close>
  "resume t k s = (if t \<in> set (pending s) then k (take_task t s) else s)"

fun step :: "event \<Rightarrow> app \<Rightarrow> app" where
  "step (StartClick gum) s = startBtn_click gum s"
| "step PreviewClick s = previewBtn_click s"
| "step ArReady s = on_arReady s"
| "step (ArError ev) s = on_arError ev s"
| "step ModelLoaded s = on_model_loaded s"
| "step TargetFound s = on_targetFound s"
| "step TargetLost s = on_targetLost s"
| "step WindowLoad s = on_load s"
| "step (GumSettles r) s = resume AtGetUserMedia (warmCameraPermission_resume r) s"
| "step (WarmReturned sys) s = resume AtWarmCameraPermission (startBtn_click_resume sys) s"
| "step (StartSettles r) s = resume AtEngineStart (startAR_resume r) s"
| "step TimerFires s = resume AtStallTimer stall_check s"

primrec run :: "event list \<Rightarrow> app \<Rightarrow> app" where
  "run [] s = s"
| "run (e # es) s = run es (step e s)"

subsection \<open>Observations\<close>

definition engine_starts :: "app \<Rightarrow> nat" where
  \<comment> \<open>how often \<open>arSystem.start()\<close> has been called\<close>
  "engine_starts s = count_list (trace s) EngineStart"

definition reveal :: "effect list" where
  \<comment> \<open>what the body of the \<open>if\<close> in \<open>checkHideOverlay\<close> does, lines 95 to 97\<close>
  "reveal = [SetOverlayDisplay ''none'', SetGuideDisplay ''block'',
             SetStatus msg_reveal, ConsoleLog [''[EnterpriseAR]'', msg_reveal]]"

definition reveal_fired :: "app \<Rightarrow> bool" where
  "reveal_fired s = sublist reveal (trace s)"

definition flags :: "app \<Rightarrow> bool \<times> bool \<times> bool" where
  "flags s = (arReady s, modelReady s, arStarted s)"

definition ui :: "app \<Rightarrow> string \<times> string \<times> string \<times> string \<times> bool" where
  "ui s = (statusText s, overlayDisplay s, guideDisplay s, modelVisible s, startDisabled s)"

subsection \<open>Invariants and a sample page\<close>

definition start_inv :: "app \<Rightarrow> bool" where
  \<comment> \<open>the engine is started only under the \<open>arStarted\<close> guard, and then once\<close>
  "start_inv s = (if arStarted s then engine_starts s \<le> 1 else engine_starts s = 0)"

definition reveal_inv :: "event list \<Rightarrow> app \<Rightarrow> bool" where
  \<comment> \<open>after the events \<open>es\<close>: the flags record the signals seen, and the overlay has
      been hidden exactly when both flags are set\<close>
  "reveal_inv es s =
     ((arReady s \<longleftrightarrow> ArReady \<in> set es) \<and> (modelReady s \<longleftrightarrow> ModelLoaded \<in> set es)
      \<and> (SetOverlayDisplay ''none'' \<in> set (trace s) \<longleftrightarrow> arReady s \<and> modelReady s)
      \<and> (reveal_fired s \<longleftrightarrow> arReady s \<and> modelReady s))"

definition sample_page :: page where
  \<comment> \<open>a page for the examples: the markup is not part of the script\<close>
  "sample_page = \<lparr> page_status = [], page_overlay = [], page_guide = ''none'',
     page_visible = ''false'', page_disabled = False \<rparr>"

section \<open>Basic facts\<close>

lemmas msg_defs = em_dash_def msg_starting_def msg_no_system_def msg_start_failed_def
  msg_engine_ready_def msg_engine_error_def msg_alert_def msg_reveal_def msg_requesting_def
  msg_stall_def

lemma status_texts_distinct:
  "distinct [msg_starting, msg_no_system, msg_start_failed, msg_engine_ready,
     msg_engine_error, msg_reveal, msg_requesting, msg_stall]"
  by (simp add: msg_defs)

lemma block_append: "block (fs @ gs) s = block gs (block fs s)"
  by (induction fs arbitrary: s) simp_all

lemma block_track_stops:
  "block (map (\<lambda>t. effect (TrackStop t)) ts) s = s\<lparr>trace := trace s @ map TrackStop ts\<rparr>"
  by (induction ts arbitrary: s) (simp_all add: effect_def)

lemma count_track_stops [simp]: "count_list (map TrackStop ts) EngineStart = 0"
  by (induction ts) simp_all

lemmas stmt_defs = effect_def suspend_def take_task_def set_status_def set_overlay_display_def
  set_guide_display_def set_model_visible_def set_start_disabled_def logStatus_def
  block_append block_track_stops Let_def

lemmas fun_defs = checkHideOverlay_def warm_catch_def warmCameraPermission_def
  warmCameraPermission_resume_def startAR_catch_def startAR_def startAR_resume_def
  on_arReady_def on_arError_def on_model_loaded_def on_targetFound_def on_targetLost_def
  startBtn_click_def startBtn_click_resume_def previewBtn_click_def on_load_def
  stall_check_def resume_def

lemma run_append: "run (es @ es') s = run es' (run es s)"
  by (induction es arbitrary: s) simp_all

lemma run_snoc: "run (es @ [e]) s = step e (run es s)"
  by (simp add: run_append)

subsection \<open>The flags only ever go up\<close>

lemma flags_step:
  "arReady (step e s) = (arReady s \<or> e = ArReady)"
  "modelReady (step e s) = (modelReady s \<or> e = ModelLoaded)"
  by (cases e; auto simp: fun_defs stmt_defs split: option.splits call.splits outcome.splits if_splits)+

lemma arStarted_step: "arStarted s \<Longrightarrow> arStarted (step e s)"
  by (cases e) (auto simp: fun_defs stmt_defs split: option.splits call.splits outcome.splits)

lemma arReady_run: "arReady s \<Longrightarrow> arReady (run es s)"
  by (induction es arbitrary: s) (simp_all add: flags_step)

lemma modelReady_run: "modelReady s \<Longrightarrow> modelReady (run es s)"
  by (induction es arbitrary: s) (simp_all add: flags_step)

lemma arStarted_run: "arStarted s \<Longrightarrow> arStarted (run es s)"
  by (induction es arbitrary: s) (simp_all add: arStarted_step)

subsection \<open>The engine is started under the guard\<close>

lemma startAR_started: "arStarted (startAR a s)"
  by (simp add: fun_defs stmt_defs split: option.splits call.splits)

lemma startAR_noop: "arStarted s \<Longrightarrow> startAR a s = s"
  by (simp add: startAR_def)

lemma engine_starts_step: "arStarted s \<Longrightarrow> engine_starts (step e s) = engine_starts s"
  by (cases e) (auto simp: engine_starts_def fun_defs stmt_defs
      split: option.splits call.splits outcome.splits)

lemma engine_starts_run: "arStarted s \<Longrightarrow> engine_starts (run es s) = engine_starts s"
  by (induction es arbitrary: s) (simp_all add: engine_starts_step arStarted_step)

lemma start_inv_boot: "start_inv (boot p)"
  by (simp add: start_inv_def boot_def engine_starts_def)

lemma start_inv_step: "start_inv s \<Longrightarrow> start_inv (step e s)"
  by (cases e) (auto simp: start_inv_def engine_starts_def fun_defs stmt_defs
      split: option.splits call.splits outcome.splits if_splits)

lemma start_inv_run: "start_inv s \<Longrightarrow> start_inv (run es s)"
  by (induction es arbitrary: s) (simp_all add: start_inv_step)

lemma engine_starts_le_1: "engine_starts (run es (boot p)) \<le> 1"
  using start_inv_run [OF start_inv_boot, of es p] by (simp add: start_inv_def split: if_splits)

lemma engine_starts_unstarted:
  "\<not> arStarted (run es (boot p)) \<Longrightarrow> engine_starts (run es (boot p)) = 0"
  using start_inv_run [OF start_inv_boot, of es p] by (simp add: start_inv_def split: if_splits)

lemma startAR_catch_obs:
  "trace (startAR_catch err s) = trace s
     @ [ConsoleError [''arSystem.start() failed'', err],
        SetStatus msg_start_failed, ConsoleLog [''[EnterpriseAR]'', msg_start_failed]]"
  "statusText (startAR_catch err s) = msg_start_failed"
  "arStarted (startAR_catch err s) = arStarted s"
  "engine_starts (startAR_catch err s) = engine_starts s"
  by (simp_all add: engine_starts_def fun_defs stmt_defs)

subsection \<open>The reveal\<close>

lemma sublist_extend: "sublist xs ys \<Longrightarrow> sublist xs (ys @ zs)"
  unfolding sublist_def by (metis append.assoc)

lemma sublist_at_end: "sublist xs (ys @ a # xs)" "sublist xs (ys @ a # b # xs)"
  using sublist_append_leftI [of xs "ys @ [a]"] sublist_append_leftI [of xs "ys @ [a, b]"]
  by simp_all

lemma reveal_marker: "sublist reveal t \<Longrightarrow> SetOverlayDisplay ''none'' \<in> set t"
  using set_mono_sublist [of reveal t] by (auto simp: reveal_def)

lemma trace_on_arReady:
  "trace (on_arReady s) = trace s
     @ [SetStatus msg_engine_ready, ConsoleLog [''[EnterpriseAR]'', msg_engine_ready]]
     @ (if modelReady s then reveal else [])"
  by (simp add: fun_defs stmt_defs reveal_def)

lemma trace_on_model_loaded:
  "trace (on_model_loaded s) = trace s @ [ConsoleLog [''Model loaded'']]
     @ (if arReady s then reveal else [])"
  by (simp add: fun_defs stmt_defs reveal_def)

lemma reveal_unfired_step:
  "SetOverlayDisplay ''none'' \<notin> set (trace s)
   \<Longrightarrow> \<not> (arReady (step e s) \<and> modelReady (step e s))
   \<Longrightarrow> SetOverlayDisplay ''none'' \<notin> set (trace (step e s))"
  by (cases e)
    (auto simp: fun_defs stmt_defs split: option.splits call.splits outcome.splits if_splits)

lemma reveal_fired_step: "reveal_fired s \<Longrightarrow> reveal_fired (step e s)"
  by (cases e) (auto simp: reveal_fired_def fun_defs stmt_defs sublist_extend
      split: option.splits call.splits outcome.splits if_splits)

lemma reveal_fires_step:
  "\<not> (arReady s \<and> modelReady s) \<Longrightarrow> arReady (step e s) \<Longrightarrow> modelReady (step e s)
   \<Longrightarrow> reveal_fired (step e s)"
proof -
  assume "\<not> (arReady s \<and> modelReady s)" "arReady (step e s)" "modelReady (step e s)"
  then have "e = ArReady \<and> modelReady s \<or> e = ModelLoaded \<and> arReady s"
    by (auto simp: flags_step)
  then show ?thesis
    by (auto simp: reveal_fired_def trace_on_arReady trace_on_model_loaded sublist_at_end)
qed

lemma reveal_inv_step: "reveal_inv es s \<Longrightarrow> reveal_inv (es @ [e]) (step e s)"
  unfolding reveal_inv_def
  using reveal_unfired_step [of s e] reveal_fired_step [of s e] reveal_fires_step [of s e]
    reveal_marker [of "trace (step e s)"]
  by (auto simp: flags_step reveal_fired_def)

lemma reveal_inv_boot: "reveal_inv [] (boot p)"
  by (simp add: reveal_inv_def boot_def reveal_fired_def reveal_def)

lemma reveal_inv_run: "reveal_inv es (run es (boot p))"
  by (induction es rule: rev_induct) (simp_all add: reveal_inv_boot run_snoc reveal_inv_step)

section \<open>The claims\<close>

text \<open>
  C1. Start from the freshly loaded script and let any events happen, in any order and
  with anything else in between. The reveal (overlay hidden, guide shown, ready status
  set and logged, as one block of effects) has fired exactly when, after some prefix of
  the events, \<open>arReady\<close> and \<open>modelReady\<close> are both true; and that is exactly when both
  an \<open>arReady\<close> and a \<open>model-loaded\<close> event are among the events, whichever came first.
\<close>

theorem reveal_iff_both_ready:
  "(reveal_fired (run es (boot p)) \<longleftrightarrow>
      (\<exists>k\<le>length es. arReady (run (take k es) (boot p))
          \<and> modelReady (run (take k es) (boot p))))
   \<and> (reveal_fired (run es (boot p)) \<longleftrightarrow> ArReady \<in> set es \<and> ModelLoaded \<in> set es)"
proof -
  have fired: "reveal_fired (run es (boot p)) \<longleftrightarrow> ArReady \<in> set es \<and> ModelLoaded \<in> set es"
    using reveal_inv_run [of es p] by (simp add: reveal_inv_def)
  have flags_at: "arReady (run xs (boot p)) \<and> modelReady (run xs (boot p))
      \<longleftrightarrow> ArReady \<in> set xs \<and> ModelLoaded \<in> set xs" for xs
    using reveal_inv_run [of xs p] by (simp add: reveal_inv_def)
  have "(\<exists>k\<le>length es. ArReady \<in> set (take k es) \<and> ModelLoaded \<in> set (take k es))
      \<longleftrightarrow> ArReady \<in> set es \<and> ModelLoaded \<in> set es"
  proof
    assume "\<exists>k\<le>length es. ArReady \<in> set (take k es) \<and> ModelLoaded \<in> set (take k es)"
    then show "ArReady \<in> set es \<and> ModelLoaded \<in> set es"
      by (auto dest: in_set_takeD)
  next
    assume "ArReady \<in> set es \<and> ModelLoaded \<in> set es"
    then have "ArReady \<in> set (take (length es) es) \<and> ModelLoaded \<in> set (take (length es) es)"
      by simp
    then show "\<exists>k\<le>length es. ArReady \<in> set (take k es) \<and> ModelLoaded \<in> set (take k es)"
      by blast
  qed
  with fired flags_at show ?thesis by simp
qed

text \<open>
  The asset first, the engine later: no reveal until the engine signal arrives; and two
  engine signals without the asset reveal nothing.
\<close>

theorem reveal_iff_both_ready_witness:
  "reveal_fired (run [ModelLoaded, TargetFound, ArReady] (boot sample_page))
   \<and> \<not> reveal_fired (run [ModelLoaded, TargetFound] (boot sample_page))
   \<and> \<not> reveal_fired (run [ArReady, ArReady] (boot sample_page))"
  using reveal_iff_both_ready [of "[ModelLoaded, TargetFound, ArReady]" sample_page, THEN conjunct2]
    reveal_iff_both_ready [of "[ModelLoaded, TargetFound]" sample_page, THEN conjunct2]
    reveal_iff_both_ready [of "[ArReady, ArReady]" sample_page, THEN conjunct2]
  by simp

text \<open>
  C2, as amended. Take the first call of \<open>startAR\<close> of a session (any events may have come
  before, \<open>arStarted\<close> is still false) and let it find the AR system. Then, whatever
  events follow, further calls of \<open>startAR\<close> among them, \<open>arSystem.start()\<close> has been
  called exactly once; \<open>arStarted\<close> stays true, and every later call of \<open>startAR\<close> returns
  at its guard and changes nothing.
\<close>

theorem startAR_once:
  assumes "\<not> arStarted (run es0 (boot p))"
  shows "(let s1 = startAR (Some c) (run es0 (boot p)) in
            engine_starts s1 = 1
          \<and> engine_starts (run es s1) = 1
          \<and> arStarted (run es s1)
          \<and> startAR a (run es s1) = run es s1)"
proof -
  let ?s0 = "run es0 (boot p)"
  let ?s1 = "startAR (Some c) ?s0"
  have "engine_starts ?s0 = 0"
    using assms by (rule engine_starts_unstarted)
  moreover have "engine_starts ?s1 = Suc (engine_starts ?s0)"
    using assms by (simp add: engine_starts_def fun_defs stmt_defs split: call.splits)
  ultimately have first: "engine_starts ?s1 = 1"
    by simp
  have later: "engine_starts (run es ?s1) = engine_starts ?s1"
    by (simp add: engine_starts_run startAR_started)
  have started: "arStarted (run es ?s1)"
    by (simp add: arStarted_run startAR_started)
  then have "startAR a (run es ?s1) = run es ?s1"
    by (rule startAR_noop)
  with first later started show ?thesis
    by (simp add: Let_def)
qed

theorem startAR_once_witness:
  "\<not> arStarted (run [StartClick None] (boot sample_page))
   \<and> engine_starts (run [StartClick None, WarmReturned (Some Returns)]
        (startAR (Some Returns) (run [StartClick None] (boot sample_page)))) = 1
   \<and> startAR (Some Returns) (startAR (Some Returns) (run [StartClick None] (boot sample_page)))
       = startAR (Some Returns) (run [StartClick None] (boot sample_page))"
proof -
  have h: "\<not> arStarted (run [StartClick None] (boot sample_page))"
    by (simp add: boot_def fun_defs stmt_defs)
  show ?thesis
    using h
      startAR_once [OF h, of Returns "[StartClick None, WarmReturned (Some Returns)]" None]
      startAR_once [OF h, of Returns "[]" "Some Returns"]
    by (simp add: Let_def)
qed

text \<open>
  C2 as stated fails where the AR system is missing: two calls of \<open>startAR\<close>, directly or
  through two clicks of the start button, and \<open>arSystem.start()\<close> is called not once but
  never (lines 47 to 50 return before line 53).
\<close>

theorem startAR_twice_counterexample:
  "engine_starts (startAR None (startAR None (boot sample_page))) \<noteq> 1
   \<and> engine_starts (startAR None (startAR None (boot sample_page))) = 0
   \<and> engine_starts (run [StartClick None, WarmReturned None, StartClick None, WarmReturned None]
         (boot sample_page)) = 0"
  by (simp add: engine_starts_def fun_defs stmt_defs boot_def)

text \<open>
  C3. Let \<open>startAR\<close> run for the first time and find the AR system, and let \<open>start()\<close>
  fail: it throws at once, or it returns a promise that is rejected later, after any
  events. In both cases the \<open>catch\<close> block sets and logs the failure status, \<open>arStarted\<close> is
  still true, a further call of \<open>startAR\<close> changes nothing, and whatever events follow,
  \<open>arSystem.start()\<close> has been called just the once.
\<close>

theorem start_failure_keeps_started:
  assumes "\<not> arStarted s"
  shows "(let s' = startAR (Some (Throws err)) s in
            statusText s' = msg_start_failed
          \<and> trace s' = trace s
               @ [SetStatus msg_starting, ConsoleLog [''[EnterpriseAR]'', msg_starting],
                  EngineStart, ConsoleError [''arSystem.start() failed'', err],
                  SetStatus msg_start_failed, ConsoleLog [''[EnterpriseAR]'', msg_start_failed]]
          \<and> arStarted s' \<and> startAR a s' = s'
          \<and> startAR a (run es' s') = run es' s'
          \<and> engine_starts (run es' s') = Suc (engine_starts s))
       \<and> (let s1 = run es (startAR (Some Returns) s);
               s' = startAR_resume (Rejected err) s1 in
            statusText s' = msg_start_failed
          \<and> trace s' = trace s1
               @ [ConsoleError [''arSystem.start() failed'', err],
                  SetStatus msg_start_failed, ConsoleLog [''[EnterpriseAR]'', msg_start_failed]]
          \<and> arStarted s' \<and> startAR a s' = s'
          \<and> startAR a (run es' s') = run es' s'
          \<and> engine_starts (run es' s') = Suc (engine_starts s))"
proof -
  let ?t = "startAR (Some (Throws err)) s"
  let ?s1 = "run es (startAR (Some Returns) s)"
  let ?r = "startAR_resume (Rejected err) ?s1"
  have t_started: "arStarted ?t"
    by (rule startAR_started)
  have t_obs: "statusText ?t = msg_start_failed"
      "trace ?t = trace s
         @ [SetStatus msg_starting, ConsoleLog [''[EnterpriseAR]'', msg_starting],
            EngineStart, ConsoleError [''arSystem.start() failed'', err],
            SetStatus msg_start_failed, ConsoleLog [''[EnterpriseAR]'', msg_start_failed]]"
      "engine_starts ?t = Suc (engine_starts s)"
    using assms by (simp_all add: engine_starts_def fun_defs stmt_defs)
  have s1_started: "arStarted ?s1"
    by (simp add: arStarted_run startAR_started)
  have s1_starts: "engine_starts ?s1 = Suc (engine_starts s)"
    using assms by (simp add: engine_starts_run startAR_started)
      (simp add: engine_starts_def fun_defs stmt_defs)
  have r_started: "arStarted ?r"
    using s1_started by (simp add: startAR_resume_def startAR_catch_obs)
  have r_starts: "engine_starts ?r = Suc (engine_starts s)"
    using s1_starts by (simp add: startAR_resume_def startAR_catch_obs)
  show ?thesis
    using t_started t_obs r_started r_starts
    by (simp add: Let_def startAR_noop arStarted_run engine_starts_run startAR_resume_def
        startAR_catch_obs)
qed

theorem start_failure_keeps_started_witness:
  "\<not> arStarted (boot sample_page)
   \<and> statusText (startAR (Some (Throws ''NotAllowedError'')) (boot sample_page))
       = msg_start_failed
   \<and> engine_starts (run [StartClick None, WarmReturned (Some Returns)]
        (startAR_resume (Rejected ''NotAllowedError'')
           (run [ArReady] (startAR (Some Returns) (boot sample_page))))) = 1"
proof -
  have h: "\<not> arStarted (boot sample_page)"
    by (simp add: boot_def)
  have z: "engine_starts (boot sample_page) = 0"
    by (simp add: boot_def engine_starts_def)
  show ?thesis
    using h z start_failure_keeps_started [OF h, of "''NotAllowedError''" None
        "[StartClick None, WarmReturned (Some Returns)]" "[ArReady]"]
    by (simp add: Let_def)
qed

text \<open>
  C4. A click on the start button, in a session whose engine start has not been
  requested and whose AR system is there, ends in exactly one call of
  \<open>arSystem.start()\<close> whatever becomes of the camera request: \<open>getUserMedia\<close> missing,
  throwing at once, or its promise settling either way. A rejection or a throw only
  adds the \<open>console.warn\<close> line: the flags and the DOM stay as they were, and the click
  handler is left waiting at line 105 to go on to \<open>startAR\<close>.
\<close>

theorem warm_failure_not_fatal:
  assumes "\<not> arStarted s"
  shows "engine_starts (run [StartClick None, WarmReturned (Some c)] s) = Suc (engine_starts s)
    \<and> engine_starts (run [StartClick (Some (Throws e)), WarmReturned (Some c)] s)
        = Suc (engine_starts s)
    \<and> engine_starts (run [StartClick (Some Returns), GumSettles r, WarmReturned (Some c)] s)
        = Suc (engine_starts s)
    \<and> (let s1 = step (StartClick (Some Returns)) s;
            s2 = step (GumSettles (Rejected e)) s1 in
          flags s2 = flags s1 \<and> ui s2 = ui s1
        \<and> trace s2 = trace s1 @ [ConsoleWarn [''warmCameraPermission failed:'', e]]
        \<and> AtWarmCameraPermission \<in> set (pending s2))
    \<and> (let s1 = step (StartClick (Some (Throws e))) s in
          flags s1 = flags s
        \<and> trace s1 = trace s
             @ [SetStartDisabled True, SetStatus msg_requesting,
                ConsoleLog [''[EnterpriseAR]'', msg_requesting], GetUserMedia,
                ConsoleWarn [''warmCameraPermission failed:'', e]]
        \<and> AtWarmCameraPermission \<in> set (pending s1))"
  using assms
  by (cases r; cases c)
    (simp_all add: engine_starts_def flags_def ui_def fun_defs stmt_defs)

theorem warm_failure_not_fatal_witness:
  "\<not> arStarted (boot sample_page)
   \<and> engine_starts (run [StartClick (Some Returns), GumSettles (Rejected ''NotAllowedError''),
        WarmReturned (Some Returns)] (boot sample_page)) = 1
   \<and> engine_starts (run [StartClick (Some (Throws ''TypeError'')), WarmReturned (Some Returns)]
        (boot sample_page)) = 1"
proof -
  have h: "\<not> arStarted (boot sample_page)"
    by (simp add: boot_def)
  have z: "engine_starts (boot sample_page) = 0"
    by (simp add: boot_def engine_starts_def)
  show ?thesis
    using h z
      warm_failure_not_fatal [OF h, of Returns "''TypeError''" "Rejected ''NotAllowedError''"]
    by simp
qed

text \<open>
  C5. The \<open>arError\<close> listener leaves \<open>arReady\<close>, \<open>modelReady\<close> and \<open>arStarted\<close> as they
  were, in every state. It runs to its end: its effects are the \<open>console.error\<close> line,
  the error status and, last, the alert; no task is added or taken, and of the DOM only
  the status text changes.
\<close>

theorem arError_keeps_flags:
  "arReady (step (ArError ev) s) = arReady s
   \<and> modelReady (step (ArError ev) s) = modelReady s
   \<and> arStarted (step (ArError ev) s) = arStarted s
   \<and> pending (step (ArError ev) s) = pending s
   \<and> ui (step (ArError ev) s)
       = (msg_engine_error, overlayDisplay s, guideDisplay s, modelVisible s, startDisabled s)
   \<and> trace (step (ArError ev) s) = trace s
        @ [ConsoleError [''MindAR arError'', ev], SetStatus msg_engine_error,
           ConsoleLog [''[EnterpriseAR]'', msg_engine_error], Alert msg_alert]"
  by (simp add: ui_def fun_defs stmt_defs)

text \<open>
  C6. Each of the three flags is monotonic: a flag that is true stays true over every
  single event (every listener, every continuation of an \<open>async\<close> function, the timer's
  callback) and so over every sequence of events. A flag is a boolean, so any other
  change is from false to true.
\<close>

theorem flags_monotonic:
  "(arReady s \<longrightarrow> arReady (step e s)) \<and> (modelReady s \<longrightarrow> modelReady (step e s))
   \<and> (arStarted s \<longrightarrow> arStarted (step e s))
   \<and> (arReady s \<longrightarrow> arReady (run es s)) \<and> (modelReady s \<longrightarrow> modelReady (run es s))
   \<and> (arStarted s \<longrightarrow> arStarted (run es s))"
  by (simp add: flags_step arStarted_step arReady_run modelReady_run arStarted_run)

theorem flags_monotonic_witness:
  "arReady (run [ModelLoaded] (boot sample_page)) = False
   \<and> modelReady (run [ModelLoaded] (boot sample_page))
   \<and> modelReady (run [ArError ''e'', StartClick None, WarmReturned None, TargetFound]
        (run [ModelLoaded] (boot sample_page)))
   \<and> modelReady (step TimerFires (run [ModelLoaded] (boot sample_page)))"
proof -
  have m: "modelReady (run [ModelLoaded] (boot sample_page))"
    by (simp add: fun_defs stmt_defs boot_def)
  have a: "arReady (run [ModelLoaded] (boot sample_page)) = False"
    by (simp add: fun_defs stmt_defs boot_def)
  show ?thesis
    using m a flags_monotonic [of "run [ModelLoaded] (boot sample_page)" TimerFires
        "[ArError ''e'', StartClick None, WarmReturned None, TargetFound]"]
    by blast
qed

text \<open>
  C7. From any state, \<open>targetFound\<close> and then \<open>targetLost\<close> leave the model's \<open>visible\<close>
  attribute at \<open>false\<close> and the guide's display at \<open>block\<close>. Neither listener reads or
  writes a flag.
\<close>

theorem found_then_lost:
  "modelVisible (step TargetLost (step TargetFound s)) = ''false''
   \<and> guideDisplay (step TargetLost (step TargetFound s)) = ''block''
   \<and> flags (step TargetLost (step TargetFound s)) = flags s
   \<and> trace (step TargetLost (step TargetFound s)) = trace s
        @ [SetModelVisible ''true'', SetGuideDisplay ''none'',
           SetModelVisible ''false'', SetGuideDisplay ''block'']"
  by (simp add: flags_def fun_defs stmt_defs)

text \<open>
  C8. The \<open>load\<close> listener sets one timer, of 8000 ms. Its callback sets and logs the
  waiting hint exactly when \<open>arReady\<close> is false at that moment, and does nothing else: no
  flag, no other DOM property and no pending task changes, and nothing is started or
  requested. It does not depend on \<open>modelReady\<close>. As an event, the timer firing takes
  the timer itself from the pending tasks and no other.
\<close>

theorem stall_check_passive:
  "trace (stall_check s) = trace s
      @ (if arReady s then []
         else [SetStatus msg_stall, ConsoleLog [''[EnterpriseAR]'', msg_stall]])
   \<and> flags (stall_check s) = flags s
   \<and> pending (stall_check s) = pending s
   \<and> (overlayDisplay (stall_check s), guideDisplay (stall_check s),
        modelVisible (stall_check s), startDisabled (stall_check s))
      = (overlayDisplay s, guideDisplay s, modelVisible s, startDisabled s)
   \<and> stall_check (s\<lparr>modelReady := b\<rparr>) = (stall_check s)\<lparr>modelReady := b\<rparr>
   \<and> trace (step WindowLoad s) = trace s @ [SetTimeout 8000]
   \<and> pending (step WindowLoad s) = pending s @ [AtStallTimer]
   \<and> trace (step TimerFires s) = trace s
      @ (if AtStallTimer \<in> set (pending s) \<and> \<not> arReady s
         then [SetStatus msg_stall, ConsoleLog [''[EnterpriseAR]'', msg_stall]] else [])
   \<and> flags (step TimerFires s) = flags s
   \<and> pending (step TimerFires s) = remove1 AtStallTimer (pending s)"
  by (simp add: flags_def fun_defs stmt_defs remove1_idem)

text \<open>
  C9. Calling the \<open>arReady\<close> listener twice leaves the flags, the DOM and the pending
  tasks as one call does, and so does the \<open>model-loaded\<close> listener. The second call
  only repeats the effects of the first: the status or log line again, and the reveal
  again if the other flag is set. A call in any state where the listener's flag is
  already true changes no flag.
\<close>

theorem ready_handlers_idempotent:
  "flags (on_arReady (on_arReady s)) = flags (on_arReady s)
   \<and> ui (on_arReady (on_arReady s)) = ui (on_arReady s)
   \<and> pending (on_arReady (on_arReady s)) = pending (on_arReady s)
   \<and> trace (on_arReady (on_arReady s)) = trace (on_arReady s)
        @ [SetStatus msg_engine_ready, ConsoleLog [''[EnterpriseAR]'', msg_engine_ready]]
        @ (if modelReady s then reveal else [])
   \<and> (arReady s \<longrightarrow> flags (on_arReady s) = flags s)
   \<and> flags (on_model_loaded (on_model_loaded s)) = flags (on_model_loaded s)
   \<and> ui (on_model_loaded (on_model_loaded s)) = ui (on_model_loaded s)
   \<and> pending (on_model_loaded (on_model_loaded s)) = pending (on_model_loaded s)
   \<and> trace (on_model_loaded (on_model_loaded s)) = trace (on_model_loaded s)
        @ [ConsoleLog [''Model loaded'']] @ (if arReady s then reveal else [])
   \<and> (modelReady s \<longrightarrow> flags (on_model_loaded s) = flags s)"
  by (simp add: flags_def ui_def reveal_def fun_defs stmt_defs)

text \<open>
  On the sample page: the engine signal twice, then the asset signal twice. The second
  call of each pair finds its flag set and leaves flags and DOM as the first did.
\<close>

theorem ready_handlers_idempotent_witness:
  "arReady (on_arReady (boot sample_page))
   \<and> flags (on_arReady (on_arReady (boot sample_page))) = (True, False, False)
   \<and> ui (on_arReady (on_arReady (boot sample_page)))
       = (msg_engine_ready, [], ''none'', ''false'', False)
   \<and> modelReady (on_model_loaded (on_arReady (boot sample_page)))
   \<and> flags (on_model_loaded (on_model_loaded (on_arReady (boot sample_page))))
       = (True, True, False)
   \<and> ui (on_model_loaded (on_model_loaded (on_arReady (boot sample_page))))
       = (msg_reveal, ''none'', ''block'', ''false'', False)"
proof -
  let ?a = "on_arReady (boot sample_page)"
  let ?m = "on_model_loaded ?a"
  have a: "arReady ?a" "flags ?a = (True, False, False)"
      "ui ?a = (msg_engine_ready, [], ''none'', ''false'', False)"
    by (simp_all add: flags_def ui_def fun_defs stmt_defs boot_def sample_page_def)
  have m: "modelReady ?m" "flags ?m = (True, True, False)"
      "ui ?m = (msg_reveal, ''none'', ''block'', ''false'', False)"
    by (simp_all add: flags_def ui_def fun_defs stmt_defs boot_def sample_page_def)
  show ?thesis
    using a m ready_handlers_idempotent [of "boot sample_page"]
      ready_handlers_idempotent [of ?a]
    by simp
qed

text \<open>
  C10. Let the first call of \<open>startAR\<close> of a session find no AR system. It sets
  \<open>arStarted\<close> all the same, shows the starting status and then the error status, and
  returns. From then on \<open>arSystem.start()\<close> has been called zero times whatever events
  follow, and every later call of \<open>startAR\<close> changes nothing. Over all sessions the
  bound is at most one call of \<open>arSystem.start()\<close>.
\<close>

theorem missing_system_never_starts:
  assumes "\<not> arStarted (run es0 (boot p))"
  shows "(let s1 = startAR None (run es0 (boot p)) in
            arStarted s1 \<and> statusText s1 = msg_no_system
          \<and> trace s1 = trace (run es0 (boot p))
               @ [SetStatus msg_starting, ConsoleLog [''[EnterpriseAR]'', msg_starting],
                  SetStatus msg_no_system, ConsoleLog [''[EnterpriseAR]'', msg_no_system]]
          \<and> engine_starts (run es s1) = 0
          \<and> startAR a (run es s1) = run es s1)
       \<and> engine_starts (run es (boot p)) \<le> 1"
proof -
  let ?s0 = "run es0 (boot p)"
  let ?s1 = "startAR None ?s0"
  have zero: "engine_starts ?s0 = 0"
    using assms by (rule engine_starts_unstarted)
  have obs: "statusText ?s1 = msg_no_system"
      "trace ?s1 = trace ?s0
         @ [SetStatus msg_starting, ConsoleLog [''[EnterpriseAR]'', msg_starting],
            SetStatus msg_no_system, ConsoleLog [''[EnterpriseAR]'', msg_no_system]]"
    using assms by (simp_all add: fun_defs stmt_defs)
  have "engine_starts ?s1 = engine_starts ?s0"
    using assms by (simp add: engine_starts_def fun_defs stmt_defs)
  with zero have later: "engine_starts (run es ?s1) = 0"
    by (simp add: engine_starts_run startAR_started)
  have "arStarted (run es ?s1)"
    by (simp add: arStarted_run startAR_started)
  then have noop: "startAR a (run es ?s1) = run es ?s1"
    by (rule startAR_noop)
  show ?thesis
    using obs later noop engine_starts_le_1 [of es p]
    by (simp add: Let_def startAR_started)
qed

theorem missing_system_never_starts_witness:
  "\<not> arStarted (run [StartClick None] (boot sample_page))
   \<and> engine_starts (run [StartClick None, WarmReturned (Some Returns)]
        (startAR None (run [StartClick None] (boot sample_page)))) = 0
   \<and> statusText (startAR None (run [StartClick None] (boot sample_page))) = msg_no_system"
proof -
  have h: "\<not> arStarted (run [StartClick None] (boot sample_page))"
    by (simp add: boot_def fun_defs stmt_defs)
  show ?thesis
    using h missing_system_never_starts [OF h,
        of "[StartClick None, WarmReturned (Some Returns)]" None]
    by (simp add: Let_def)
qed

end
